theory Spec2Isabelle
  imports Main
begin

section \<open>The document\<close>

text \<open>
  The history subsystem touches the document only through four things: whether an
  element is attached (\<open>isConnected\<close>), its inline style declaration
  (\<open>el.style[property]\<close>), its attributes (\<open>getAttribute\<close>, \<open>setAttribute\<close>,
  \<open>removeAttribute\<close>) and its text (\<open>textContent\<close>). The document is a store from
  element identities to these fields. A style property that is not set reads as the empty
  string, an attribute that is absent reads as \<open>None\<close> (JavaScript's \<open>null\<close>).
  An element reference held by a change is \<open>Some e\<close>, or \<open>None\<close> for
  \<open>null\<close>/\<open>undefined\<close>.

  An assignment to \<open>el.style[property]\<close> goes through the browser's CSS parser, which
  is no code of this repository. It is the field \<open>cssValue\<close> of the element:
  \<open>cssValue p v\<close> is \<open>None\<close> when \<open>v\<close> is not a value of property \<open>p\<close> (the
  declaration ignores the assignment), and \<open>Some v'\<close> when the declaration stores
  \<open>v'\<close>, the normalised text of \<open>v\<close>. Nothing is assumed about it, so every theorem
  holds for every parser.
\<close>

type_synonym element = nat

record element_state =
  isConnected :: bool
  isSVG :: bool
  style :: "string \<Rightarrow> string"
  cssValue :: "string \<Rightarrow> string \<Rightarrow> string option"
  attributes :: "string \<rightharpoonup> string"
  textContent :: string

type_synonym dom = "element \<Rightarrow> element_state"

definition setStyle :: "dom \<Rightarrow> element \<Rightarrow> string \<Rightarrow> string \<Rightarrow> dom" where
  "setStyle d e p v =
     (case cssValue (d e) p v of
        None \<Rightarrow> d
      | Some v' \<Rightarrow> d(e := (d e)\<lparr>style := (style (d e))(p := v')\<rparr>))"

definition setAttribute :: "dom \<Rightarrow> element \<Rightarrow> string \<Rightarrow> string \<Rightarrow> dom" where
  "setAttribute d e a v = d(e := (d e)\<lparr>attributes := (attributes (d e))(a \<mapsto> v)\<rparr>)"

definition removeAttribute :: "dom \<Rightarrow> element \<Rightarrow> string \<Rightarrow> dom" where
  "removeAttribute d e a = d(e := (d e)\<lparr>attributes := (attributes (d e))(a := None)\<rparr>)"

definition setTextContent :: "dom \<Rightarrow> element \<Rightarrow> string \<Rightarrow> dom" where
  "setTextContent d e t = d(e := (d e)\<lparr>textContent := t\<rparr>)"

text \<open>\<open>this.element && this.element.isConnected\<close> and \<open>this.element?.isConnected\<close>.\<close>

definition connected :: "dom \<Rightarrow> element option \<Rightarrow> bool" where
  "connected d el = (case el of None \<Rightarrow> False | Some e \<Rightarrow> isConnected (d e))"

section \<open>Exceptions\<close>

text \<open>
  A call that can throw has a result of type \<open>error \<times> 's + 's\<close>: \<open>Inr s\<close> when it
  returns and leaves the state \<open>s\<close>, \<open>Inl (e, s)\<close> when it throws \<open>e\<close> and the
  state is \<open>s\<close> at that moment (what was written before the throw stays written).
  \<open>after\<close> is the state either way; \<open>and_then\<close> runs the next statement unless the
  one before it threw.
\<close>

datatype error = Error string

definition after :: "error \<times> 's + 's \<Rightarrow> 's" where
  "after r = (case r of Inl (e, s) \<Rightarrow> s | Inr s \<Rightarrow> s)"

definition and_then :: "error \<times> 's + 's \<Rightarrow> ('s \<Rightarrow> error \<times> 's + 's) \<Rightarrow> error \<times> 's + 's" where
  "and_then r f = (case r of Inl x \<Rightarrow> Inl x | Inr s \<Rightarrow> f s)"

section \<open>Changes\<close>

text \<open>
  The classes of \<open>history.js\<close>. Every change carries the \<open>timestamp\<close> that the
  base constructor reads from \<open>Date.now()\<close>; it is the first argument of each
  constructor below, then the fields in the order the class assigns them.
  \<open>Change\<close> is an instance of the base class itself (or of a subclass that overrides
  nothing): its \<open>undo\<close> and \<open>redo\<close> throw. Style values are strings and attribute
  values are strings or \<open>null\<close>, as \<open>types/index.d.ts\<close> declares them.
  \<open>DOMChange\<close> (moving, inserting and removing nodes) needs the tree structure of the
  document and is not part of this development; no statement below is about it.
\<close>

datatype change =
    Change int
  | StyleChange int "element option" string string string
  | AttributeChange int "element option" string "string option" "string option"
  | TextChange int "element option" string string
  | BatchChange int "change list"

fun timestamp :: "change \<Rightarrow> int" where
  "timestamp (Change ts) = ts"
| "timestamp (StyleChange ts el p ov nv) = ts"
| "timestamp (AttributeChange ts el a ov nv) = ts"
| "timestamp (TextChange ts el ot nt) = ts"
| "timestamp (BatchChange ts cs) = ts"

text \<open>
  The field read \<open>other.newValue\<close> of \<open>StyleChange.merge\<close>. On an object that has no
  such string field JavaScript yields \<open>undefined\<close> or \<open>null\<close>, which no string stands
  for: the value is left unspecified there. The manager calls \<open>merge\<close> only after
  \<open>canMerge\<close>, which holds for a \<open>StyleChange\<close> argument only.
\<close>

fun newValue :: "change \<Rightarrow> string" where
  "newValue (StyleChange ts el p ov nv) = nv"
| "newValue (AttributeChange ts el a ov (Some nv)) = nv"
| "newValue c = undefined"

text \<open>
  \<open>canMerge\<close>: the base class answers false; \<open>StyleChange\<close> compares the element, the
  property and the two timestamps against the literal 1000.
\<close>

fun canMerge :: "change \<Rightarrow> change \<Rightarrow> bool" where
  "canMerge (StyleChange ts el p ov nv) (StyleChange ts' el' p' ov' nv') =
     (el' = el \<and> p' = p \<and> ts' - ts < 1000)"
| "canMerge c other = False"

text \<open>
  \<open>merge\<close>: the base class returns \<open>this\<close>; \<open>StyleChange\<close> constructs a new
  \<open>StyleChange\<close>, whose timestamp is the clock reading \<open>now\<close> at that moment.
\<close>

fun merge :: "int \<Rightarrow> change \<Rightarrow> change \<Rightarrow> change" where
  "merge now (StyleChange ts el p ov nv) other = StyleChange now el p ov (newValue other)"
| "merge now c other = c"

text \<open>
  \<open>undo\<close> and \<open>redo\<close> act on the document. A batch undoes its members from the last
  to the first and redoes them from the first to the last; an exception of a member leaves
  the loop, with the members already handled left as they are.
\<close>

fun undo_change :: "change \<Rightarrow> dom \<Rightarrow> error \<times> dom + dom"
  and undo_each :: "change list \<Rightarrow> dom \<Rightarrow> error \<times> dom + dom" where
  "undo_change (Change ts) d = Inl (Error ''undo() must be implemented'', d)"
| "undo_change (StyleChange ts el p ov nv) d =
     (if connected d el then Inr (setStyle d (the el) p ov) else Inr d)"
| "undo_change (AttributeChange ts el a ov nv) d =
     (if \<not> connected d el then Inr d
      else case ov of
             None \<Rightarrow> Inr (removeAttribute d (the el) a)
           | Some v \<Rightarrow> Inr (setAttribute d (the el) a v))"
| "undo_change (TextChange ts el ot nt) d =
     (if connected d el then Inr (setTextContent d (the el) ot) else Inr d)"
| "undo_change (BatchChange ts cs) d = undo_each cs d"
| "undo_each [] d = Inr d"
| "undo_each (c # cs) d =
     (case undo_each cs d of
        Inl e \<Rightarrow> Inl e
      | Inr d' \<Rightarrow> undo_change c d')"

fun redo_change :: "change \<Rightarrow> dom \<Rightarrow> error \<times> dom + dom"
  and redo_each :: "change list \<Rightarrow> dom \<Rightarrow> error \<times> dom + dom" where
  "redo_change (Change ts) d = Inl (Error ''redo() must be implemented'', d)"
| "redo_change (StyleChange ts el p ov nv) d =
     (if connected d el then Inr (setStyle d (the el) p nv) else Inr d)"
| "redo_change (AttributeChange ts el a ov nv) d =
     (if \<not> connected d el then Inr d
      else case nv of
             None \<Rightarrow> Inr (removeAttribute d (the el) a)
           | Some v \<Rightarrow> Inr (setAttribute d (the el) a v))"
| "redo_change (TextChange ts el ot nt) d =
     (if connected d el then Inr (setTextContent d (the el) nt) else Inr d)"
| "redo_change (BatchChange ts cs) d = redo_each cs d"
| "redo_each [] d = Inr d"
| "redo_each (c # cs) d =
     (case redo_change c d of
        Inl e \<Rightarrow> Inl e
      | Inr d' \<Rightarrow> redo_each cs d')"

section \<open>The history manager\<close>

text \<open>
  The object returned by the \<open>state\<close> getter, which every \<open>change\<close> event carries.
\<close>

record snapshot =
  snap_canUndo :: bool
  snap_canRedo :: bool
  snap_undoSize :: nat
  snap_redoSize :: nat
  snap_batchMode :: bool

text \<open>
  A listener is a function of the host. It is known by its identity (\<open>off\<close> compares
  with \<open>!==\<close>), and a call of it either returns (\<open>None\<close>) or throws, which may depend
  on the data it is called with. Listeners are taken not to call back into the manager.
\<close>

datatype callback = Callback (ident: nat) (throws: "snapshot \<Rightarrow> error option")

text \<open>
  The fields of \<open>HistoryManager\<close>. Both stacks are JavaScript arrays whose last
  element is the top. \<open>listeners\<close> maps an event name to the callbacks registered for
  it, in order (no entry and an emptied entry both give no call). \<open>delivered\<close> is not
  a field of the class: it records, in order, every call that \<open>emit\<close> makes (callback,
  event, data), so that what is emitted can be stated. The \<open>console.error\<close> output of
  a failed undo or redo is not recorded.
\<close>

record history_manager =
  undoStack :: "change list"
  redoStack :: "change list"
  maxSize :: int
  batchMode :: bool
  batchedChanges :: "change list"
  mergeTimeout :: int
  listeners :: "string \<Rightarrow> callback list"
  delivered :: "(nat \<times> string \<times> snapshot) list"

text \<open>
  The constructor's \<open>options\<close>; a missing key is \<open>None\<close>. \<open>x || d\<close> is \<open>d\<close>
  when \<open>x\<close> is missing or zero.
\<close>

record options =
  opt_maxSize :: "int option"
  opt_mergeTimeout :: "int option"

definition or_default :: "int option \<Rightarrow> int \<Rightarrow> int" where
  "or_default x d = (case x of None \<Rightarrow> d | Some n \<Rightarrow> if n = 0 then d else n)"

definition HistoryManager :: "options \<Rightarrow> history_manager" where
  "HistoryManager opts =
     \<lparr>undoStack = [], redoStack = [],
      maxSize = or_default (opt_maxSize opts) 50,
      batchMode = False, batchedChanges = [],
      mergeTimeout = or_default (opt_mergeTimeout opts) 1000,
      listeners = (\<lambda>event. []), delivered = []\<rparr>"

definition on :: "string \<Rightarrow> callback \<Rightarrow> history_manager \<Rightarrow> history_manager" where
  "on event cb h = h\<lparr>listeners := (listeners h)(event := listeners h event @ [cb])\<rparr>"

definition off :: "string \<Rightarrow> callback \<Rightarrow> history_manager \<Rightarrow> history_manager" where
  "off event cb h =
     h\<lparr>listeners :=
         (listeners h)(event := filter (\<lambda>c. ident c \<noteq> ident cb) (listeners h event))\<rparr>"

text \<open>
  \<open>emit\<close> calls the listeners of the event in order (\<open>forEach\<close>). A listener that
  throws ends the loop: the listeners after it are not called and the exception leaves
  \<open>emit\<close>.
\<close>

fun call_each ::
  "string \<Rightarrow> snapshot \<Rightarrow> callback list \<Rightarrow> history_manager
    \<Rightarrow> error \<times> history_manager + history_manager" where
  "call_each event data [] h = Inr h"
| "call_each event data (cb # cbs) h =
     (let h1 = h\<lparr>delivered := delivered h @ [(ident cb, event, data)]\<rparr>
      in case throws cb data of
           Some e \<Rightarrow> Inl (e, h1)
         | None \<Rightarrow> call_each event data cbs h1)"

definition emit ::
  "string \<Rightarrow> snapshot \<Rightarrow> history_manager \<Rightarrow> error \<times> history_manager + history_manager" where
  "emit event data h = call_each event data (listeners h event) h"

definition canUndo :: "history_manager \<Rightarrow> bool" where
  "canUndo h = (length (undoStack h) > 0)"

definition canRedo :: "history_manager \<Rightarrow> bool" where
  "canRedo h = (length (redoStack h) > 0)"

definition state :: "history_manager \<Rightarrow> snapshot" where
  "state h =
     \<lparr>snap_canUndo = canUndo h, snap_canRedo = canRedo h,
      snap_undoSize = length (undoStack h), snap_redoSize = length (redoStack h),
      snap_batchMode = batchMode h\<rparr>"

text \<open>
  \<open>push\<close> takes a change or an array of changes. \<open>now\<close> is the reading of
  \<open>Date.now()\<close> during the call: the timestamp of the \<open>BatchChange\<close> that wraps
  an array of two or more, and of the \<open>StyleChange\<close> that \<open>merge\<close> constructs (one
  call constructs at most one of the two). The call throws when a listener does: the
  stacks are written by then.
\<close>

datatype push_arg = Single change | Array "change list"

text \<open>The size limit, as \<open>push\<close> and \<open>endBatch\<close> both enforce it.\<close>

definition enforce_limit :: "history_manager \<Rightarrow> history_manager" where
  "enforce_limit h =
     (if int (length (undoStack h)) > maxSize h then h\<lparr>undoStack := tl (undoStack h)\<rparr> else h)"

text \<open>
  The part of \<open>push\<close> from the merge attempt on, for the single change that the
  argument has become.
\<close>

definition push_change ::
  "int \<Rightarrow> change \<Rightarrow> history_manager \<Rightarrow> error \<times> history_manager + history_manager" where
  "push_change now change h =
     (if length (undoStack h) > 0 \<and> canMerge (last (undoStack h)) change then
        Inr (h\<lparr>undoStack :=
                 (undoStack h)[length (undoStack h) - 1 :=
                                 merge now (last (undoStack h)) change],
               redoStack := []\<rparr>)
      else
        (let h1 = enforce_limit (h\<lparr>undoStack := undoStack h @ [change], redoStack := []\<rparr>)
         in emit ''change'' (state h1) h1))"

definition push ::
  "int \<Rightarrow> push_arg \<Rightarrow> history_manager \<Rightarrow> error \<times> history_manager + history_manager" where
  "push now arg h =
     (if batchMode h then
        (case arg of
           Array cs \<Rightarrow> Inr (h\<lparr>batchedChanges := batchedChanges h @ cs\<rparr>)
         | Single c \<Rightarrow> Inr (h\<lparr>batchedChanges := batchedChanges h @ [c]\<rparr>))
      else
        (case arg of
           Array cs \<Rightarrow>
             (if length cs = 0 then Inr h
              else if length cs = 1 then push_change now (hd cs) h
              else push_change now (BatchChange now cs) h)
         | Single c \<Rightarrow> push_change now c h))"

definition beginBatch :: "history_manager \<Rightarrow> history_manager" where
  "beginBatch h = h\<lparr>batchMode := True, batchedChanges := []\<rparr>"

text \<open>
  \<open>endBatch\<close>: when a listener throws, the two assignments that close the batch are
  not reached.
\<close>

definition endBatch ::
  "int \<Rightarrow> history_manager \<Rightarrow> error \<times> history_manager + history_manager" where
  "endBatch now h =
     and_then
       (if length (batchedChanges h) > 0 then
          (let h1 = enforce_limit
                      (h\<lparr>undoStack := undoStack h @ [BatchChange now (batchedChanges h)],
                         redoStack := []\<rparr>)
           in emit ''change'' (state h1) h1)
        else Inr h)
       (\<lambda>h2. Inr (h2\<lparr>batchMode := False, batchedChanges := []\<rparr>))"

text \<open>
  \<open>undo\<close> and \<open>redo\<close> return the boolean with the manager and the document they
  leave. The \<open>try\<close> block holds the call of the change, the push onto the other stack
  and the \<open>emit\<close>; the \<open>catch\<close> block pushes the popped entry back onto its stack,
  whichever of them threw.
\<close>

definition undo :: "history_manager \<times> dom \<Rightarrow> bool \<times> history_manager \<times> dom" where
  "undo s =
     (let (h, d) = s in
      if \<not> canUndo h then (False, h, d)
      else
        (let change = last (undoStack h);
             h1 = h\<lparr>undoStack := butlast (undoStack h)\<rparr>
         in case undo_change change d of
              Inl (e, d') \<Rightarrow> (False, h1\<lparr>undoStack := undoStack h1 @ [change]\<rparr>, d')
            | Inr d' \<Rightarrow>
                (let h2 = h1\<lparr>redoStack := redoStack h1 @ [change]\<rparr>
                 in case emit ''change'' (state h2) h2 of
                      Inl (e, h3) \<Rightarrow> (False, h3\<lparr>undoStack := undoStack h3 @ [change]\<rparr>, d')
                    | Inr h3 \<Rightarrow> (True, h3, d'))))"

definition redo :: "history_manager \<times> dom \<Rightarrow> bool \<times> history_manager \<times> dom" where
  "redo s =
     (let (h, d) = s in
      if \<not> canRedo h then (False, h, d)
      else
        (let change = last (redoStack h);
             h1 = h\<lparr>redoStack := butlast (redoStack h)\<rparr>
         in case redo_change change d of
              Inl (e, d') \<Rightarrow> (False, h1\<lparr>redoStack := redoStack h1 @ [change]\<rparr>, d')
            | Inr d' \<Rightarrow>
                (let h2 = h1\<lparr>undoStack := undoStack h1 @ [change]\<rparr>
                 in case emit ''change'' (state h2) h2 of
                      Inl (e, h3) \<Rightarrow> (False, h3\<lparr>redoStack := redoStack h3 @ [change]\<rparr>, d')
                    | Inr h3 \<Rightarrow> (True, h3, d'))))"

definition clear :: "history_manager \<Rightarrow> error \<times> history_manager + history_manager" where
  "clear h =
     (let h1 = h\<lparr>undoStack := [], redoStack := [], batchedChanges := [], batchMode := False\<rparr>
      in emit ''change'' (state h1) h1)"

definition getHistory :: "history_manager \<Rightarrow> change list" where
  "getHistory h = undoStack h"

section \<open>Sequences of operations\<close>

text \<open>
  What a host and the tools can do to a manager, one call at a time; a call that throws
  leaves the manager as it is at the throw, and the next call finds it so.
  \<open>Document f\<close> is a change of the document made by anyone else between two calls (a
  tool's live edit, the host detaching an element).
\<close>

datatype operation =
    Push int push_arg
  | BeginBatch
  | EndBatch int
  | Undo
  | Redo
  | Clear
  | On string callback
  | Off string callback
  | Document "dom \<Rightarrow> dom"

fun step :: "operation \<Rightarrow> history_manager \<times> dom \<Rightarrow> history_manager \<times> dom" where
  "step (Push now arg) (h, d) = (after (push now arg h), d)"
| "step BeginBatch (h, d) = (beginBatch h, d)"
| "step (EndBatch now) (h, d) = (after (endBatch now h), d)"
| "step Undo (h, d) = snd (undo (h, d))"
| "step Redo (h, d) = snd (redo (h, d))"
| "step Clear (h, d) = (after (clear h), d)"
| "step (On event cb) (h, d) = (on event cb h, d)"
| "step (Off event cb) (h, d) = (off event cb h, d)"
| "step (Document f) (h, d) = (h, f d)"

definition run :: "operation list \<Rightarrow> history_manager \<times> dom \<Rightarrow> history_manager \<times> dom" where
  "run ops s = foldl (\<lambda>s op. step op s) s ops"

text \<open>Pushing single changes one after the other, each with the clock reading of its call.\<close>

definition pushes :: "(int \<times> change) list \<Rightarrow> operation list" where
  "pushes tcs = map (\<lambda>(now, c). Push now (Single c)) tcs"

section \<open>The position tool's draggable\<close>

text \<open>
  The closure state of \<open>draggable\<close> in \<open>position.js\<close>, as far as the mouse-up
  handler's history and click logic reads or writes it. The coordinates
  \<open>state.element.x/y\<close> and \<open>state.mouse.x/y\<close>, which the handler recomputes with
  \<open>parseInt\<close> and \<open>parseFloat\<close> for the next mouse-move, feed neither decision and
  are left out. \<open>state.historyManager\<close> is a reference to the shared manager (or
  undefined): the manager travels beside the state as a \<open>history_manager option\<close>.
  The last component counts the calls of \<open>clickEvent\<close>.
\<close>

record draggable_state =
  target :: element
  surface :: element
  mouse_down :: bool
  travelDistance :: nat
  initialPosition :: "(string \<times> string) option"
  initialTransform :: "string option"
  zIndex :: "string option"







section \<open>Predicates, and concrete documents and managers\<close>

text \<open>No listener of the event throws when called with the data.\<close>

definition all_return :: "string \<Rightarrow> snapshot \<Rightarrow> history_manager \<Rightarrow> bool" where
  "all_return event data h = list_all (\<lambda>cb. throws cb data = None) (listeners h event)"

text \<open>
  A document whose elements are all attached, none of them an SVG element, with nothing
  set, and whose style declarations store every value as it is given; and the same
  document with element 0 detached while its inline \<open>left\<close> is \<open>2px\<close>.
\<close>

definition doc0 :: dom where
  "doc0 = (\<lambda>e. \<lparr>isConnected = True, isSVG = False, style = (\<lambda>p. []),
                 cssValue = (\<lambda>p v. Some v), attributes = Map.empty, textContent = []\<rparr>)"

definition detached_doc :: dom where
  "detached_doc =
     doc0(0 := \<lparr>isConnected = False, isSVG = False, style = (\<lambda>p. [])(''left'' := ''2px''),
                cssValue = (\<lambda>p v. Some v), attributes = Map.empty, textContent = []\<rparr>)"

text \<open>\<open>new HistoryManager()\<close>, and two nudges of element 0 half a second apart.\<close>

definition default_manager :: history_manager where
  "default_manager = HistoryManager \<lparr>opt_maxSize = None, opt_mergeTimeout = None\<rparr>"

definition left_0_1 :: change where
  "left_0_1 = StyleChange 0 (Some 0) ''left'' ''0px'' ''1px''"

definition left_1_2 :: change where
  "left_1_2 = StyleChange 500 (Some 0) ''left'' ''1px'' ''2px''"

text \<open>A listener that returns whatever it is told, and one that throws whatever it is told.\<close>

definition quiet_listener :: callback where
  "quiet_listener = Callback 7 (\<lambda>data. None)"

definition throwing_listener :: callback where
  "throwing_listener = Callback 8 (\<lambda>data. Some (Error ''listener''))"

text \<open>
  A manager with the quiet listener and one entry; the same after its entry has been
  undone (the redo stack holds it); and after the second nudge has been pushed onto it
  instead (the two nudges are merged).
\<close>

definition watched_manager :: history_manager where
  "watched_manager = after (push 0 (Single left_0_1) (on ''change'' quiet_listener default_manager))"

definition undone_manager :: history_manager where
  "undone_manager = fst (run [Undo] (watched_manager, doc0))"

definition merged_manager :: history_manager where
  "merged_manager = after (push 500 (Single left_1_2) watched_manager)"

text \<open>
  The watched manager after a text change has been pushed and undone: one entry on each
  stack, and the listener has last been told that redo is possible.
\<close>

definition redoable_manager :: history_manager where
  "redoable_manager =
     fst (run [Push 10 (Single (TextChange 10 (Some 0) ''a'' ''b'')), Undo]
            (watched_manager, doc0))"

text \<open>
  A manager with one entry to which a listener that throws is added afterwards; and the
  same with a \<open>maxSize\<close> of 1.
\<close>

definition failing_manager :: history_manager where
  "failing_manager =
     fst (run [Push 0 (Single left_0_1), On ''change'' throwing_listener] (default_manager, doc0))"

definition tight_manager :: history_manager where
  "tight_manager =
     fst (run [Push 0 (Single left_0_1), On ''change'' throwing_listener]
            (HistoryManager \<lparr>opt_maxSize = Some 1, opt_mergeTimeout = None\<rparr>, doc0))"

text \<open>Managers constructed with a merge window of five seconds and of a tenth of a second.\<close>

definition wide_manager :: history_manager where
  "wide_manager = HistoryManager \<lparr>opt_maxSize = None, opt_mergeTimeout = Some 5000\<rparr>"

definition narrow_manager :: history_manager where
  "narrow_manager = HistoryManager \<lparr>opt_maxSize = None, opt_mergeTimeout = Some 100\<rparr>"

text \<open>A manager with a batch open and one change in the buffer.\<close>

definition open_batch :: history_manager where
  "open_batch = fst (run [BeginBatch, Push 0 (Single left_0_1)] (default_manager, doc0))"

text \<open>
  A burst of style changes of one property of one element, as the clock readings of the
  pushes and the changes pushed: each change is created less than 1000 ms after the one
  before it (\<open>t\<close> is the creation time of the change that precedes the burst), and is
  pushed no earlier than it was created (both readings come from the same clock, the
  constructor's first).
\<close>

fun burst :: "element option \<Rightarrow> string \<Rightarrow> int \<Rightarrow> (int \<times> change) list \<Rightarrow> bool" where
  "burst el p t [] = True"
| "burst el p t ((now, StyleChange ts el' p' ov nv) # rest) =
     (el' = el \<and> p' = p \<and> ts - t < 1000 \<and> ts \<le> now \<and> burst el p ts rest)"
| "burst el p t ((now, c) # rest) = False"

text \<open>
  Three more nudges of element 0, 900 ms apart: with the first nudge at 0 the burst lasts
  2700 ms.
\<close>

definition nudges :: "(int \<times> change) list" where
  "nudges = [(900, StyleChange 900 (Some 0) ''left'' ''1px'' ''2px''),
             (1800, StyleChange 1800 (Some 0) ''left'' ''2px'' ''3px''),
             (2700, StyleChange 2700 (Some 0) ''left'' ''3px'' ''4px'')]"

text \<open>
  The document after the two style writes that \<open>onMouseUp\<close> makes before it looks at
  the position (the restored \<open>zIndex\<close>, the cleared \<open>willChange\<close>).
\<close>

definition released_doc :: "draggable_state \<Rightarrow> dom \<Rightarrow> dom" where
  "released_doc st d =
     setStyle (case zIndex st of None \<Rightarrow> d | Some z \<Rightarrow> setStyle d (target st) ''zIndex'' z)
       (target st) ''willChange'' []"











section \<open>Properties\<close>

subsection \<open>Results and notifications\<close>

lemma after_simps [simp]:
  "after (Inr s) = s"
  "after (Inl (e, s)) = s"
  by (simp_all add: after_def)

lemma and_then_simps [simp]:
  "and_then (Inr s) f = f s"
  "and_then (Inl x) f = Inl x"
  by (simp_all add: and_then_def)

lemma and_then_Inr [simp]: "and_then r Inr = r" "and_then r (\<lambda>s. Inr s) = r"
  by (cases r; simp)+

lemma after_cases: "r = Inr (after r) \<or> (\<exists>e. r = Inl (e, after r))"
  by (cases r) auto

lemma call_each_keeps:
  "undoStack (after (call_each ev data cbs h)) = undoStack h \<and>
   redoStack (after (call_each ev data cbs h)) = redoStack h \<and>
   maxSize (after (call_each ev data cbs h)) = maxSize h \<and>
   batchMode (after (call_each ev data cbs h)) = batchMode h \<and>
   batchedChanges (after (call_each ev data cbs h)) = batchedChanges h \<and>
   mergeTimeout (after (call_each ev data cbs h)) = mergeTimeout h \<and>
   listeners (after (call_each ev data cbs h)) = listeners h"
  by (induction cbs arbitrary: h) (auto simp add: Let_def split: option.splits)

lemma call_each_returns:
  "list_all (\<lambda>cb. throws cb data = None) cbs \<Longrightarrow>
   call_each ev data cbs h =
     Inr (h\<lparr>delivered := delivered h @ map (\<lambda>cb. (ident cb, ev, data)) cbs\<rparr>)"
  by (induction cbs arbitrary: h) (auto simp add: Let_def)

lemma emit_fields [simp]:
  "undoStack (after (emit ev data h)) = undoStack h"
  "redoStack (after (emit ev data h)) = redoStack h"
  "maxSize (after (emit ev data h)) = maxSize h"
  "batchMode (after (emit ev data h)) = batchMode h"
  "batchedChanges (after (emit ev data h)) = batchedChanges h"
  "mergeTimeout (after (emit ev data h)) = mergeTimeout h"
  "listeners (after (emit ev data h)) = listeners h"
  using call_each_keeps [of ev data "listeners h ev" h] by (simp_all add: emit_def)

lemma emit_returns:
  "all_return ev data h \<Longrightarrow>
   emit ev data h =
     Inr (h\<lparr>delivered := delivered h @ map (\<lambda>cb. (ident cb, ev, data)) (listeners h ev)\<rparr>)"
  by (simp add: emit_def all_return_def call_each_returns)

lemma emit_unheard: "listeners h ev = [] \<Longrightarrow> emit ev data h = Inr h"
  by (simp add: emit_def)

subsection \<open>Field lemmas\<close>

lemma enforce_limit_fields [simp]:
  "redoStack (enforce_limit h) = redoStack h"
  "maxSize (enforce_limit h) = maxSize h"
  "batchMode (enforce_limit h) = batchMode h"
  "batchedChanges (enforce_limit h) = batchedChanges h"
  "mergeTimeout (enforce_limit h) = mergeTimeout h"
  "listeners (enforce_limit h) = listeners h"
  "delivered (enforce_limit h) = delivered h"
  by (simp_all add: enforce_limit_def)

lemma enforce_limit_undoStack:
  "undoStack (enforce_limit h) =
     (if int (length (undoStack h)) > maxSize h then tl (undoStack h) else undoStack h)"
  by (simp add: enforce_limit_def)

lemma HistoryManager_fields [simp]:
  "undoStack (HistoryManager opts) = []"
  "redoStack (HistoryManager opts) = []"
  "batchMode (HistoryManager opts) = False"
  "batchedChanges (HistoryManager opts) = []"
  "maxSize (HistoryManager opts) = or_default (opt_maxSize opts) 50"
  "mergeTimeout (HistoryManager opts) = or_default (opt_mergeTimeout opts) 1000"
  "listeners (HistoryManager opts) = (\<lambda>event. [])"
  "delivered (HistoryManager opts) = []"
  by (simp_all add: HistoryManager_def)

lemma push_change_fields [simp]:
  "redoStack (after (push_change now c h)) = []"
  "maxSize (after (push_change now c h)) = maxSize h"
  "batchMode (after (push_change now c h)) = batchMode h"
  "batchedChanges (after (push_change now c h)) = batchedChanges h"
  "mergeTimeout (after (push_change now c h)) = mergeTimeout h"
  "listeners (after (push_change now c h)) = listeners h"
  by (simp_all add: push_change_def Let_def)

lemma push_fields [simp]:
  "maxSize (after (push now arg h)) = maxSize h"
  "mergeTimeout (after (push now arg h)) = mergeTimeout h"
  "listeners (after (push now arg h)) = listeners h"
  by (cases arg; simp add: push_def)+

subsection \<open>What a push does to the undo stack\<close>

lemma push_change_merge:
  assumes "undoStack h = s @ [a]" and "canMerge a c"
  shows "push_change now c h = Inr (h\<lparr>undoStack := s @ [merge now a c], redoStack := []\<rparr>)"
  using assms by (simp add: push_change_def)

lemma push_change_new:
  assumes "undoStack h = [] \<or> \<not> canMerge (last (undoStack h)) c"
  shows "undoStack (after (push_change now c h)) =
           (if int (length (undoStack h)) + 1 > maxSize h then tl (undoStack h @ [c])
            else undoStack h @ [c])"
  using assms by (auto simp add: push_change_def Let_def enforce_limit_undoStack)

lemma push_unbatched:
  "\<not> batchMode h \<Longrightarrow> arg \<noteq> Array [] \<Longrightarrow>
   \<exists>c. push now arg h = push_change now c h"
  by (cases arg) (auto simp add: push_def)

lemma push_Single_unbatched:
  "\<not> batchMode h \<Longrightarrow> push now (Single c) h = push_change now c h"
  by (simp add: push_def)



subsection \<open>Running operations\<close>

lemma run_Nil [simp]: "run [] s = s"
  by (simp add: run_def)

lemma run_Cons [simp]: "run (op # ops) s = run ops (step op s)"
  by (simp add: run_def)

lemma run_append [simp]: "run (ops @ ops') s = run ops' (run ops s)"
  by (simp add: run_def)

lemma pushes_simps [simp]:
  "pushes [] = []"
  "pushes ((now, c) # tcs) = Push now (Single c) # pushes tcs"
  "pushes (tcs @ tcs') = pushes tcs @ pushes tcs'"
  by (simp_all add: pushes_def)

lemma step_Push: "step (Push now arg) s = (after (push now arg (fst s)), snd s)"
  by (cases s) simp

subsection \<open>The outcomes of undo and redo\<close>

lemma undo_empty: "undoStack h = [] \<Longrightarrow> undo (h, d) = (False, h, d)"
  by (simp add: undo_def canUndo_def)

lemma undo_change_throws:
  assumes "undoStack h = s @ [c]" and "undo_change c d = Inl (e, d')"
  shows "undo (h, d) = (False, h, d')"
proof -
  have "h\<lparr>undoStack := butlast (undoStack h) @ [c]\<rparr> = h"
    using assms(1) by simp
  then show ?thesis
    using assms by (simp add: undo_def canUndo_def Let_def)
qed

lemma undo_notifies:
  assumes "undoStack h = s @ [c]" and "undo_change c d = Inr d'"
    and "emit ''change'' (state (h\<lparr>undoStack := s, redoStack := redoStack h @ [c]\<rparr>))
           (h\<lparr>undoStack := s, redoStack := redoStack h @ [c]\<rparr>) = Inr h'"
  shows "undo (h, d) = (True, h', d')"
  using assms by (simp add: undo_def canUndo_def Let_def)

lemma undo_listener_throws:
  assumes "undoStack h = s @ [c]" and "undo_change c d = Inr d'"
    and "emit ''change'' (state (h\<lparr>undoStack := s, redoStack := redoStack h @ [c]\<rparr>))
           (h\<lparr>undoStack := s, redoStack := redoStack h @ [c]\<rparr>) = Inl (e, h')"
  shows "undo (h, d) = (False, h'\<lparr>undoStack := undoStack h' @ [c]\<rparr>, d')"
  using assms by (simp add: undo_def canUndo_def Let_def)

lemma redo_empty: "redoStack h = [] \<Longrightarrow> redo (h, d) = (False, h, d)"
  by (simp add: redo_def canRedo_def)

lemma redo_change_throws:
  assumes "redoStack h = s @ [c]" and "redo_change c d = Inl (e, d')"
  shows "redo (h, d) = (False, h, d')"
proof -
  have "h\<lparr>redoStack := butlast (redoStack h) @ [c]\<rparr> = h"
    using assms(1) by simp
  then show ?thesis
    using assms by (simp add: redo_def canRedo_def Let_def)
qed

lemma redo_notifies:
  assumes "redoStack h = s @ [c]" and "redo_change c d = Inr d'"
    and "emit ''change'' (state (h\<lparr>redoStack := s, undoStack := undoStack h @ [c]\<rparr>))
           (h\<lparr>redoStack := s, undoStack := undoStack h @ [c]\<rparr>) = Inr h'"
  shows "redo (h, d) = (True, h', d')"
  using assms by (simp add: redo_def canRedo_def Let_def)

lemma redo_listener_throws:
  assumes "redoStack h = s @ [c]" and "redo_change c d = Inr d'"
    and "emit ''change'' (state (h\<lparr>redoStack := s, undoStack := undoStack h @ [c]\<rparr>))
           (h\<lparr>redoStack := s, undoStack := undoStack h @ [c]\<rparr>) = Inl (e, h')"
  shows "redo (h, d) = (False, h'\<lparr>redoStack := redoStack h' @ [c]\<rparr>, d')"
  using assms by (simp add: redo_def canRedo_def Let_def)

subsection \<open>The concrete managers\<close>

lemma watched_manager_fields:
  "undoStack watched_manager = [left_0_1]"
  "redoStack watched_manager = []"
  "listeners watched_manager ''change'' = [quiet_listener]"
  "delivered watched_manager =
     [(7, ''change'', \<lparr>snap_canUndo = True, snap_canRedo = False, snap_undoSize = 1,
                       snap_redoSize = 0, snap_batchMode = False\<rparr>)]"
  "batchMode watched_manager = False"
  "batchedChanges watched_manager = []"
  "maxSize watched_manager = 50"
  "mergeTimeout watched_manager = 1000"
  by (simp_all add: watched_manager_def default_manager_def push_def push_change_def on_def
      or_default_def Let_def enforce_limit_def emit_def state_def canUndo_def canRedo_def
      quiet_listener_def)

lemma watched_manager_quiet: "\<forall>data. all_return ''change'' data watched_manager"
  by (simp add: all_return_def watched_manager_fields quiet_listener_def)

lemma undone_manager_fields:
  "undoStack undone_manager = []"
  "redoStack undone_manager = [left_0_1]"
  "batchMode undone_manager = False"
  "batchedChanges undone_manager = []"
  by (simp_all add: undone_manager_def undo_def canUndo_def watched_manager_fields
      Let_def left_0_1_def connected_def doc0_def emit_def quiet_listener_def)

subsection \<open>Undo and redo with a listener that throws\<close>

lemma failing_manager_fields:
  "undoStack failing_manager = [left_0_1]"
  "redoStack failing_manager = []"
  "listeners failing_manager ''change'' = [throwing_listener]"
  "delivered failing_manager = []"
  by (simp_all add: failing_manager_def default_manager_def push_def push_change_def on_def
      or_default_def Let_def enforce_limit_def emit_def)

text \<open>
  Claim C2 does not hold of the code. The manager has one entry and a listener that
  throws. \<open>undo\<close> pops the entry and the entry's own \<open>undo\<close> returns (with \<open>left\<close>
  set back to \<open>0px\<close>); the entry is pushed onto the redo stack and \<open>emit\<close> is called
  inside the \<open>try\<close> block; the listener's exception enters the \<open>catch\<close> block, which
  pushes the entry back onto the undo stack and returns false. The operation succeeded,
  yet the result is false and the entry is on both stacks. A \<open>redo\<close> after that does the
  same the other way round: the entry is redone, returns false, and is on the undo stack
  twice.
\<close>

theorem undo_false_after_successful_operation:
  "undoStack failing_manager = [left_0_1] \<and> redoStack failing_manager = [] \<and>
   undo_change left_0_1 doc0 = Inr (setStyle doc0 0 ''left'' ''0px'') \<and>
   fst (undo (failing_manager, doc0)) = False \<and>
   undoStack (fst (snd (undo (failing_manager, doc0)))) = [left_0_1] \<and>
   redoStack (fst (snd (undo (failing_manager, doc0)))) = [left_0_1] \<and>
   snd (snd (undo (failing_manager, doc0))) = setStyle doc0 0 ''left'' ''0px'' \<and>
   fst (redo (run [Undo] (failing_manager, doc0))) = False \<and>
   undoStack (fst (snd (redo (run [Undo] (failing_manager, doc0))))) = [left_0_1, left_0_1] \<and>
   redoStack (fst (snd (redo (run [Undo] (failing_manager, doc0))))) = [left_0_1]"
proof -
  let ?d = "setStyle doc0 0 ''left'' ''0px''"
  let ?g = "fst (snd (undo (failing_manager, doc0)))"
  have c: "connected doc0 (Some 0)" "connected ?d (Some 0)"
    by (simp_all add: connected_def doc0_def setStyle_def)
  have u: "undo_change left_0_1 doc0 = Inr ?d"
    using c by (simp add: left_0_1_def)
  have r: "redo_change left_0_1 ?d = Inr (setStyle ?d 0 ''left'' ''1px'')"
    using c by (simp add: left_0_1_def)
  have 1: "fst (undo (failing_manager, doc0)) = False"
    "undoStack ?g = [left_0_1]" "redoStack ?g = [left_0_1]"
    "listeners ?g ''change'' = [throwing_listener]"
    "snd (snd (undo (failing_manager, doc0))) = ?d"
    by (simp_all add: undo_def canUndo_def failing_manager_fields u Let_def emit_def
        throwing_listener_def)
  have 2: "run [Undo] (failing_manager, doc0) = (?g, ?d)"
    using 1(5) by (simp add: prod_eq_iff)
  have 3: "fst (redo (?g, ?d)) = False"
    "undoStack (fst (snd (redo (?g, ?d)))) = [left_0_1, left_0_1]"
    "redoStack (fst (snd (redo (?g, ?d)))) = [left_0_1]"
    by (simp_all add: redo_def canRedo_def 1 r Let_def emit_def throwing_listener_def)
  show ?thesis
    unfolding 2 using 1 3 u by (simp add: failing_manager_fields)
qed

subsection \<open>The size limit\<close>

lemma tl_drop_snoc:
  assumes "k \<le> length xs"
  shows "tl (drop k xs @ [c]) = drop (Suc k) (xs @ [c])"
proof -
  have "drop (Suc k) (xs @ [c]) = tl (drop k (xs @ [c]))"
    by (simp only: drop_Suc tl_drop)
  moreover have "drop k (xs @ [c]) = drop k xs @ [c]"
    using assms by simp
  ultimately show ?thesis by simp
qed

text \<open>
  Eviction by pushes, whatever the listeners do: pushing changes none of which merges into
  its predecessor, onto an empty stack with a positive limit, leaves the newest
  \<open>maxSize\<close> of them.
\<close>

lemma pushes_unmergeable:
  assumes nb: "\<not> batchMode h" and m: "0 < maxSize h" and e: "undoStack h = []"
    and u: "\<forall>i. Suc i < length tcs \<longrightarrow> \<not> canMerge (snd (tcs ! i)) (snd (tcs ! Suc i))"
  shows "undoStack (fst (run (pushes tcs) (h, d))) =
           drop (length tcs - nat (maxSize h)) (map snd tcs) \<and>
         \<not> batchMode (fst (run (pushes tcs) (h, d))) \<and>
         maxSize (fst (run (pushes tcs) (h, d))) = maxSize h"
  using u
proof (induction tcs rule: rev_induct)
  case Nil
  with nb e show ?case by simp
next
  case (snoc tc tcs)
  obtain now c where tc: "tc = (now, c)" by (cases tc)
  let ?h = "fst (run (pushes tcs) (h, d))"
  let ?d = "snd (run (pushes tcs) (h, d))"
  let ?cs = "map snd tcs"
  let ?n = "length tcs"
  let ?m = "nat (maxSize h)"
  have prev: "\<forall>i. Suc i < length tcs \<longrightarrow> \<not> canMerge (snd (tcs ! i)) (snd (tcs ! Suc i))"
  proof (intro allI impI)
    fix i assume i: "Suc i < length tcs"
    then have "Suc i < length (tcs @ [tc])" by simp
    with snoc.prems have "\<not> canMerge (snd ((tcs @ [tc]) ! i)) (snd ((tcs @ [tc]) ! Suc i))"
      by blast
    with i show "\<not> canMerge (snd (tcs ! i)) (snd (tcs ! Suc i))"
      by (simp add: nth_append)
  qed
  from snoc.IH [OF prev]
  have us: "undoStack ?h = drop (?n - ?m) ?cs" and b: "\<not> batchMode ?h"
    and ms: "maxSize ?h = maxSize h"
    by simp_all
  have top: "undoStack ?h = [] \<or> \<not> canMerge (last (undoStack ?h)) c"
  proof (cases "tcs = []")
    case True
    with us show ?thesis by simp
  next
    case False
    then have n: "0 < ?n" by simp
    from m n have "?n - ?m < ?n" by simp
    then have "drop (?n - ?m) ?cs \<noteq> []" by simp
    then have "last (undoStack ?h) = last ?cs" using us by simp
    also have "\<dots> = snd (tcs ! (?n - 1))"
      using False by (simp add: last_map last_conv_nth)
    finally have l: "last (undoStack ?h) = snd (tcs ! (?n - 1))" .
    have "Suc (?n - 1) < length (tcs @ [tc])" using n by simp
    with snoc.prems
    have "\<not> canMerge (snd ((tcs @ [tc]) ! (?n - 1))) (snd ((tcs @ [tc]) ! Suc (?n - 1)))"
      by blast
    with n tc have "\<not> canMerge (snd (tcs ! (?n - 1))) c"
      by (simp add: nth_append)
    with l show ?thesis by simp
  qed
  have r: "run (pushes (tcs @ [tc])) (h, d) = (after (push_change now c ?h), ?d)"
    using tc b by (simp add: push_Single_unbatched step_Push)
  have len: "length (undoStack ?h) = ?n - (?n - ?m)" using us by simp
  have "undoStack (after (push_change now c ?h)) = drop (Suc ?n - ?m) (?cs @ [c])"
  proof (cases "?m \<le> ?n")
    case True
    with m len ms have "int (length (undoStack ?h)) + 1 > maxSize ?h" by simp
    with push_change_new [OF top, of now]
    have "undoStack (after (push_change now c ?h)) = tl (drop (?n - ?m) ?cs @ [c])"
      using us by simp
    also have "\<dots> = drop (Suc (?n - ?m)) (?cs @ [c])"
      by (rule tl_drop_snoc) simp
    also have "Suc (?n - ?m) = Suc ?n - ?m" using True by simp
    finally show ?thesis .
  next
    case False
    with m len ms have "\<not> int (length (undoStack ?h)) + 1 > maxSize ?h" by simp
    with push_change_new [OF top, of now]
    have "undoStack (after (push_change now c ?h)) = drop (?n - ?m) ?cs @ [c]"
      using us by simp
    with False show ?thesis by simp
  qed
  with r tc b ms show ?case by simp
qed

lemma tight_manager_fields:
  "undoStack tight_manager = [left_0_1]"
  "redoStack tight_manager = []"
  "maxSize tight_manager = 1"
  "listeners tight_manager ''change'' = [throwing_listener]"
  by (simp_all add: tight_manager_def push_def push_change_def on_def
      or_default_def Let_def enforce_limit_def emit_def)

text \<open>
  Claim C4 does not hold of the code. The manager has a \<open>maxSize\<close> of 1, one entry and
  a listener that throws. \<open>undo\<close> leaves the entry on both stacks (the \<open>catch\<close> block
  pushes it back after the listener threw); \<open>redo\<close> then pushes the entry of the redo
  stack onto the undo stack, which nothing trims there: the undo stack holds two entries.
\<close>

theorem undo_stack_exceeds_limit:
  "maxSize tight_manager = 1 \<and> undoStack tight_manager = [left_0_1] \<and>
   undoStack (fst (run [Undo] (tight_manager, doc0))) = [left_0_1] \<and>
   redoStack (fst (run [Undo] (tight_manager, doc0))) = [left_0_1] \<and>
   undoStack (fst (run [Undo, Redo] (tight_manager, doc0))) = [left_0_1, left_0_1] \<and>
   maxSize (fst (run [Undo, Redo] (tight_manager, doc0))) = 1 \<and>
   int (length (undoStack (fst (run [Undo, Redo] (tight_manager, doc0))))) >
     maxSize (fst (run [Undo, Redo] (tight_manager, doc0)))"
proof -
  let ?d = "setStyle doc0 0 ''left'' ''0px''"
  let ?g = "fst (snd (undo (tight_manager, doc0)))"
  have c: "connected doc0 (Some 0)" "connected ?d (Some 0)"
    by (simp_all add: connected_def doc0_def setStyle_def)
  have u: "undo_change left_0_1 doc0 = Inr ?d"
    using c by (simp add: left_0_1_def)
  have r: "redo_change left_0_1 ?d = Inr (setStyle ?d 0 ''left'' ''1px'')"
    using c by (simp add: left_0_1_def)
  have 1: "undoStack ?g = [left_0_1]" "redoStack ?g = [left_0_1]"
    "listeners ?g ''change'' = [throwing_listener]" "maxSize ?g = 1"
    "snd (snd (undo (tight_manager, doc0))) = ?d"
    by (simp_all add: undo_def canUndo_def tight_manager_fields u Let_def emit_def
        throwing_listener_def)
  have 2: "run [Undo] (tight_manager, doc0) = (?g, ?d)"
    using 1(5) by (simp add: prod_eq_iff)
  have 3: "undoStack (fst (snd (redo (?g, ?d)))) = [left_0_1, left_0_1]"
    "maxSize (fst (snd (redo (?g, ?d)))) = 1"
    by (simp_all add: redo_def canRedo_def 1 r Let_def emit_def throwing_listener_def)
  have "run [Undo, Redo] (tight_manager, doc0) = run [Redo] (run [Undo] (tight_manager, doc0))"
    by simp
  also have "\<dots> = snd (redo (?g, ?d))"
    unfolding 2 by simp
  finally have 4: "run [Undo, Redo] (tight_manager, doc0) = snd (redo (?g, ?d))" .
  show ?thesis
    unfolding 4 2 using 1 3 by (simp add: tight_manager_fields)
qed

subsection \<open>The redo stack after a push\<close>

text \<open>
  Claim C3, as amended. A push outside batch mode of a single change or of a non-empty
  array leaves the redo stack empty, whether the change is merged into the top or becomes
  the new top, and whether the call returns or a listener throws; so does \<open>endBatch\<close>
  when the buffer holds at least one change. (The push of an empty array returns at once
  and leaves the redo stack as it is.)
\<close>

theorem push_clears_redo:
  "(\<not> batchMode h \<and> arg \<noteq> Array [] \<longrightarrow> redoStack (after (push now arg h)) = []) \<and>
   (batchedChanges h \<noteq> [] \<longrightarrow> redoStack (after (endBatch now h)) = [])"
proof (intro conjI impI)
  assume "\<not> batchMode h \<and> arg \<noteq> Array []"
  then obtain c where "push now arg h = push_change now c h"
    using push_unbatched by blast
  then show "redoStack (after (push now arg h)) = []" by simp
next
  let ?h = "enforce_limit (h\<lparr>undoStack := undoStack h @ [BatchChange now (batchedChanges h)],
                            redoStack := []\<rparr>)"
  assume "batchedChanges h \<noteq> []"
  then have e: "endBatch now h =
                  and_then (emit ''change'' (state ?h) ?h)
                    (\<lambda>h2. Inr (h2\<lparr>batchMode := False, batchedChanges := []\<rparr>))"
    by (simp add: endBatch_def Let_def)
  have "redoStack (after (emit ''change'' (state ?h) ?h)) = []"
    by simp
  with after_cases [of "emit ''change'' (state ?h) ?h"]
  show "redoStack (after (endBatch now h)) = []"
    unfolding e by (cases "emit ''change'' (state ?h) ?h") auto
qed

text \<open>
  On the manager whose redo stack holds one entry: a push empties it; a push into an open
  batch does not, the \<open>endBatch\<close> that follows does.
\<close>

theorem push_clears_redo_witness:
  "\<not> batchMode undone_manager \<and> Single left_1_2 \<noteq> Array [] \<and>
   redoStack undone_manager = [left_0_1] \<and>
   redoStack (after (push 500 (Single left_1_2) undone_manager)) = [] \<and>
   batchedChanges (after (push 500 (Single left_1_2) (beginBatch undone_manager))) \<noteq> [] \<and>
   redoStack (after (push 500 (Single left_1_2) (beginBatch undone_manager))) = [left_0_1] \<and>
   redoStack (after (endBatch 600
                (after (push 500 (Single left_1_2) (beginBatch undone_manager))))) = []"
proof -
  have a: "\<not> batchMode undone_manager \<and> Single left_1_2 \<noteq> Array []"
    by (simp add: undone_manager_fields)
  have b: "batchedChanges (after (push 500 (Single left_1_2) (beginBatch undone_manager))) \<noteq> []"
    by (simp add: push_def beginBatch_def)
  have c: "redoStack (after (push 500 (Single left_1_2) (beginBatch undone_manager))) =
             [left_0_1]"
    by (simp add: push_def beginBatch_def undone_manager_fields)
  from a push_clears_redo [of undone_manager "Single left_1_2" 500]
  have 1: "redoStack (after (push 500 (Single left_1_2) undone_manager)) = []" by blast
  from b push_clears_redo
           [of "after (push 500 (Single left_1_2) (beginBatch undone_manager))" _ 600]
  have 2: "redoStack (after (endBatch 600
             (after (push 500 (Single left_1_2) (beginBatch undone_manager))))) = []"
    by blast
  from a b c 1 2 show ?thesis by (simp add: undone_manager_fields)
qed

text \<open>
  The claim as stated fails for \<open>push([])\<close>: outside batch mode, with an entry on the
  redo stack, the call leaves that entry there.
\<close>

theorem push_empty_array_keeps_redo:
  "\<not> batchMode undone_manager \<and>
   redoStack (after (push 5 (Array []) undone_manager)) = [left_0_1]"
  by (simp add: undone_manager_fields push_def)

subsection \<open>Detached targets\<close>

text \<open>
  Claim C5. For a \<open>StyleChange\<close>, an \<open>AttributeChange\<close> and a \<open>TextChange\<close> whose
  target is not connected to the document (or is no element at all), \<open>undo\<close> and
  \<open>redo\<close> return without throwing and leave the whole document as it is.
\<close>

theorem detached_target_noop:
  assumes "\<not> connected d el"
  shows "undo_change (StyleChange ts el p ov nv) d = Inr d \<and>
         redo_change (StyleChange ts el p ov nv) d = Inr d \<and>
         undo_change (AttributeChange ts el a aov anv) d = Inr d \<and>
         redo_change (AttributeChange ts el a aov anv) d = Inr d \<and>
         undo_change (TextChange ts el ot nt) d = Inr d \<and>
         redo_change (TextChange ts el ot nt) d = Inr d"
  using assms by simp

theorem detached_target_noop_witness:
  "\<not> connected detached_doc (Some 0) \<and>
   undo_change left_1_2 detached_doc = Inr detached_doc \<and>
   redo_change left_1_2 detached_doc = Inr detached_doc \<and>
   undo_change (AttributeChange 7 (Some 0) ''src'' None (Some ''a.png'')) detached_doc =
     Inr detached_doc \<and>
   redo_change (AttributeChange 7 (Some 0) ''src'' None (Some ''a.png'')) detached_doc =
     Inr detached_doc \<and>
   undo_change (TextChange 9 (Some 0) ''old'' ''new'') detached_doc = Inr detached_doc \<and>
   redo_change (TextChange 9 (Some 0) ''old'' ''new'') detached_doc = Inr detached_doc"
proof -
  have a: "\<not> connected detached_doc (Some 0)"
    by (simp add: connected_def detached_doc_def)
  from detached_target_noop [OF a, of 500 "''left''" "''1px''" "''2px''"]
       detached_target_noop [OF a, of 7 _ _ _ "''src''" None "Some ''a.png''"]
       detached_target_noop [OF a, of 9 _ _ _ _ _ _ "''old''" "''new''"] a
  show ?thesis by (simp add: left_1_2_def)
qed

subsection \<open>Coalescing\<close>

lemma undo_top_style:
  assumes "undoStack h = s @ [StyleChange t el p ov nv]"
  shows "snd (snd (undo (h, d))) = (if connected d el then setStyle d (the el) p ov else d)"
  using assms
  by (simp add: undo_def canUndo_def Let_def split: sum.splits prod.splits)

text \<open>
  Claim C1, as amended. Let the manager be configured with the default merge window of
  1000 ms and not be batching, let \<open>a\<close> be the top of its undo stack, and let \<open>b\<close> be a
  \<open>StyleChange\<close> of the same element and property created less than 1000 ms after
  \<open>a\<close>. Pushing \<open>b\<close> returns and replaces the top by one merged entry: the stack does
  not grow, the entry has \<open>a\<close>'s old value, \<open>b\<close>'s new value and the time of the push as
  its timestamp. If no listener of \<open>change\<close> throws, one \<open>undo\<close> then returns true and
  removes that entry. After that \<open>undo\<close> the element's property is \<open>a\<close>'s old value if
  the element is connected to the document and its style declaration stores that value as
  it is; if the element is not connected, the document is left as it is.
\<close>

theorem coalesce_then_undo:
  assumes "\<not> batchMode h"
    and "undoStack h = s @ [StyleChange ta el p ova nva]"
    and "tb - ta < 1000"
    and "mergeTimeout h = 1000"
    and "hb = after (push now (Single (StyleChange tb el p ovb nvb)) h)"
  shows "push now (Single (StyleChange tb el p ovb nvb)) h = Inr hb \<and>
         undoStack hb = s @ [StyleChange now el p ova nvb] \<and>
         length (undoStack hb) = length (undoStack h) \<and>
         ((\<forall>data. all_return ''change'' data h) \<longrightarrow>
            fst (undo (hb, d)) \<and> undoStack (fst (snd (undo (hb, d)))) = s) \<and>
         (connected d el \<and> cssValue (d (the el)) p ova = Some ova \<longrightarrow>
            style (snd (snd (undo (hb, d))) (the el)) p = ova) \<and>
         (\<not> connected d el \<longrightarrow> snd (snd (undo (hb, d))) = d)"
proof -
  let ?m = "StyleChange now el p ova nvb"
  have m: "canMerge (StyleChange ta el p ova nva) (StyleChange tb el p ovb nvb)"
    using assms(3) by simp
  have p: "push now (Single (StyleChange tb el p ovb nvb)) h =
             Inr (h\<lparr>undoStack := s @ [?m], redoStack := []\<rparr>)"
    using assms(1,2) m by (simp add: push_Single_unbatched push_change_merge)
  then have hb: "hb = h\<lparr>undoStack := s @ [?m], redoStack := []\<rparr>"
    using assms(5) by simp
  then have u: "undoStack hb = s @ [?m]" and l: "listeners hb = listeners h"
    by simp_all
  let ?h = "hb\<lparr>undoStack := s, redoStack := redoStack hb @ [?m]\<rparr>"
  have quiet: "fst (undo (hb, d)) \<and> undoStack (fst (snd (undo (hb, d)))) = s"
    if "\<forall>data. all_return ''change'' data h"
  proof -
    from that l have "all_return ''change'' (state ?h) ?h"
      by (simp add: all_return_def)
    then obtain h' where e: "emit ''change'' (state ?h) ?h = Inr h'"
      and s: "undoStack h' = undoStack ?h"
      using emit_returns [of "''change''" "state ?h" ?h] by simp
    have "undo_change ?m d = Inr (if connected d el then setStyle d (the el) p ova else d)"
      by simp
    from undo_notifies [OF u this e] s show ?thesis
      by simp
  qed
  have doc: "snd (snd (undo (hb, d))) = (if connected d el then setStyle d (the el) p ova else d)"
    using u by (rule undo_top_style)
  show ?thesis
    using p hb u assms(2) quiet doc by (simp add: setStyle_def)
qed

text \<open>
  The two nudges of element 0 of the attached document: one entry \<open>0px \<rightarrow> 2px\<close>, and
  one \<open>undo\<close> puts \<open>left\<close> back to \<open>0px\<close>.
\<close>

theorem coalesce_then_undo_witness:
  "\<not> batchMode watched_manager \<and> undoStack watched_manager = [left_0_1] \<and>
   (500::int) - 0 < 1000 \<and> mergeTimeout watched_manager = 1000 \<and>
   (\<forall>data. all_return ''change'' data watched_manager) \<and>
   connected doc0 (Some 0) \<and> cssValue (doc0 0) ''left'' ''0px'' = Some ''0px'' \<and>
   undoStack merged_manager = [StyleChange 500 (Some 0) ''left'' ''0px'' ''2px''] \<and>
   fst (undo (merged_manager, doc0)) \<and>
   undoStack (fst (snd (undo (merged_manager, doc0)))) = [] \<and>
   style (snd (snd (undo (merged_manager, doc0))) 0) ''left'' = ''0px'' \<and>
   \<not> connected detached_doc (Some 0) \<and>
   snd (snd (undo (merged_manager, detached_doc))) = detached_doc"
proof -
  have a: "\<not> batchMode watched_manager" by (simp add: watched_manager_fields)
  have b: "undoStack watched_manager = [] @ [StyleChange 0 (Some 0) ''left'' ''0px'' ''1px'']"
    by (simp add: watched_manager_fields left_0_1_def)
  have c: "(500::int) - 0 < 1000" by simp
  have e: "mergeTimeout watched_manager = 1000" by (simp add: watched_manager_fields)
  have f: "merged_manager =
             after (push 500 (Single (StyleChange 500 (Some 0) ''left'' ''1px'' ''2px''))
                      watched_manager)"
    by (simp add: merged_manager_def left_1_2_def)
  have g: "connected doc0 (Some 0) \<and> cssValue (doc0 (the (Some 0))) ''left'' ''0px'' = Some ''0px''"
    by (simp add: connected_def doc0_def)
  have i: "\<not> connected detached_doc (Some 0)"
    by (simp add: connected_def detached_doc_def)
  from coalesce_then_undo [OF a b c e f, of detached_doc] i
  have j: "snd (snd (undo (merged_manager, detached_doc))) = detached_doc"
    by blast
  from coalesce_then_undo [OF a b c e f, of doc0] g a b c e i j watched_manager_quiet
  show ?thesis
    by (simp add: left_0_1_def)
qed

text \<open>
  The claim as stated fails when the element has left the document: the two nudges are
  merged and \<open>undo\<close> returns true, but \<open>left\<close> of element 0 stays \<open>2px\<close>; it is not
  set back to \<open>0px\<close>, the first change's old value.
\<close>

theorem coalesce_undo_detached:
  "undoStack merged_manager = [StyleChange 500 (Some 0) ''left'' ''0px'' ''2px''] \<and>
   fst (undo (merged_manager, detached_doc)) \<and>
   style (snd (snd (undo (merged_manager, detached_doc))) 0) ''left'' = ''2px'' \<and>
   style (snd (snd (undo (merged_manager, detached_doc))) 0) ''left'' \<noteq> ''0px''"
proof -
  let ?m = "StyleChange 500 (Some 0) ''left'' ''0px'' ''2px''"
  have u: "undoStack merged_manager = [?m]" "redoStack merged_manager = []"
    "listeners merged_manager ''change'' = [quiet_listener]"
    by (simp_all add: merged_manager_def push_def push_change_def
        watched_manager_fields left_0_1_def left_1_2_def)
  have "fst (undo (merged_manager, detached_doc))"
    "snd (snd (undo (merged_manager, detached_doc))) = detached_doc"
    by (simp_all add: undo_def canUndo_def Let_def u connected_def detached_doc_def emit_def
        quiet_listener_def)
  with u show ?thesis by (simp add: detached_doc_def)
qed

subsection \<open>The sliding window\<close>

lemma burst_merges:
  assumes "burst el p t tcs" and "t \<le> T" and "\<not> batchMode h"
    and "undoStack h = s @ [StyleChange T el p ov nv]"
  shows "undoStack (fst (run (pushes tcs) (h, d))) =
           s @ [if tcs = [] then StyleChange T el p ov nv
                else StyleChange (fst (last tcs)) el p ov (newValue (snd (last tcs)))]"
  using assms
proof (induction el p t tcs arbitrary: h T nv rule: burst.induct)
  case (1 el p t)
  then show ?case by simp
next
  case (2 el p t now ts el' p' ov' nv' rest)
  from "2.prems"(1) have same: "el' = el" "p' = p" and w: "ts - t < 1000" and n: "ts \<le> now"
    and r: "burst el p ts rest" by simp_all
  from w "2.prems"(2) have "canMerge (StyleChange T el p ov nv) (StyleChange ts el' p' ov' nv')"
    using same by simp
  with "2.prems"(3,4)
  have st: "push now (Single (StyleChange ts el' p' ov' nv')) h =
              Inr (h\<lparr>undoStack := s @ [StyleChange now el p ov nv'], redoStack := []\<rparr>)"
    by (simp add: push_Single_unbatched push_change_merge)
  let ?h = "h\<lparr>undoStack := s @ [StyleChange now el p ov nv'], redoStack := []\<rparr>"
  have b: "\<not> batchMode ?h" using "2.prems"(3) by simp
  have u: "undoStack ?h = s @ [StyleChange now el p ov nv']" by simp
  from "2.IH" [OF r n b u] st
  show ?case by simp
qed simp_all

text \<open>
  Claim C10. The entry that replaces the top at a merge is a new \<open>StyleChange\<close> whose
  timestamp is the time of the merge, not the creation time of the entry it replaces.
  So a burst of style changes of one property of one element, pushed outside batch mode
  onto a stack whose top \<open>a\<close> is a change of that property, collapses into one entry
  whenever each change is created less than 1000 ms after the one before it, however long
  the whole burst lasts: the stack keeps its length, and the top has \<open>a\<close>'s old value,
  the last change's new value and the time of the last push.
\<close>

theorem burst_collapses_to_one:
  assumes "\<not> batchMode h"
    and "undoStack h = s @ [StyleChange t0 el p ov nv]"
    and "burst el p t0 tcs"
    and "tcs \<noteq> []"
  shows "undoStack (fst (run (pushes tcs) (h, d))) =
           s @ [StyleChange (fst (last tcs)) el p ov (newValue (snd (last tcs)))]"
  using burst_merges [OF assms(3) order_refl assms(1,2), of d] assms(4) by simp

text \<open>
  Four nudges at 0, 900, 1800 and 2700 ms: the last is created 2700 ms after the first,
  and the stack holds the single entry \<open>0px \<rightarrow> 4px\<close>, stamped 2700.
\<close>

theorem burst_collapses_to_one_witness:
  "\<not> batchMode watched_manager \<and> undoStack watched_manager = [left_0_1] \<and>
   burst (Some 0) ''left'' 0 nudges \<and> nudges \<noteq> [] \<and>
   undoStack (fst (run (pushes nudges) (watched_manager, doc0))) =
     [StyleChange 2700 (Some 0) ''left'' ''0px'' ''4px'']"
proof -
  have a: "\<not> batchMode watched_manager" by (simp add: watched_manager_fields)
  have b: "undoStack watched_manager = [] @ [StyleChange 0 (Some 0) ''left'' ''0px'' ''1px'']"
    by (simp add: watched_manager_fields left_0_1_def)
  have c: "burst (Some 0) ''left'' 0 nudges" by (simp add: nudges_def)
  have e: "nudges \<noteq> []" by (simp add: nudges_def)
  from burst_collapses_to_one [OF a b c e, of doc0] a b c e show ?thesis
    by (simp add: nudges_def left_0_1_def)
qed

subsection \<open>Notification of a merged push\<close>

lemma redoable_manager_fields:
  "undoStack redoable_manager = [left_0_1]"
  "redoStack redoable_manager = [TextChange 10 (Some 0) ''a'' ''b'']"
  "batchMode redoable_manager = False"
  "map ident (listeners redoable_manager ''change'') = [7]"
  "length (delivered redoable_manager) = 3"
  "snd (snd (last (delivered redoable_manager))) =
     \<lparr>snap_canUndo = True, snap_canRedo = True, snap_undoSize = 1,
      snap_redoSize = 1, snap_batchMode = False\<rparr>"
  by (simp_all add: redoable_manager_def push_def push_change_def watched_manager_fields
      left_0_1_def Let_def enforce_limit_def undo_def canUndo_def
      canRedo_def connected_def doc0_def emit_def state_def quiet_listener_def)

text \<open>
  Claim C6 does not hold of the code. The manager has a listener for \<open>change\<close>, one
  entry on each stack, and has last told the listener that redo is possible. Pushing the
  second nudge outside batch mode merges it into the top: the undo stack is a different one
  and the redo stack is emptied, so \<open>canRedo\<close> has become false, yet no call to the
  listener is made. The merge branch of \<open>push\<close> returns before the \<open>emit\<close> that the
  other branch ends with.
\<close>

theorem merged_push_is_silent:
  "\<not> batchMode redoable_manager \<and>
   map ident (listeners redoable_manager ''change'') = [7] \<and>
   undoStack redoable_manager = [left_0_1] \<and>
   canRedo redoable_manager \<and>
   snap_canRedo (snd (snd (last (delivered redoable_manager)))) \<and>
   undoStack (after (push 500 (Single left_1_2) redoable_manager)) =
     [StyleChange 500 (Some 0) ''left'' ''0px'' ''2px''] \<and>
   \<not> canRedo (after (push 500 (Single left_1_2) redoable_manager)) \<and>
   delivered (after (push 500 (Single left_1_2) redoable_manager)) = delivered redoable_manager"
  by (simp add: redoable_manager_fields push_def push_change_def left_0_1_def left_1_2_def
      canRedo_def)

subsection \<open>The configured merge window\<close>

text \<open>
  Claim C7 does not hold of the code. The constructor stores the configured window in
  \<open>mergeTimeout\<close>, and \<open>canMerge\<close> never reads it. With a window of 5000 ms two
  nudges 3000 ms apart stay two entries; with a window of 100 ms two nudges 500 ms apart
  are merged into one.
\<close>

theorem merge_window_is_fixed:
  "mergeTimeout wide_manager = 5000 \<and>
   undoStack (fst (run (pushes [(0, left_0_1),
                                 (3000, StyleChange 3000 (Some 0) ''left'' ''1px'' ''2px'')])
                    (wide_manager, doc0))) =
     [left_0_1, StyleChange 3000 (Some 0) ''left'' ''1px'' ''2px''] \<and>
   mergeTimeout narrow_manager = 100 \<and>
   undoStack (fst (run (pushes [(0, left_0_1), (500, left_1_2)]) (narrow_manager, doc0))) =
     [StyleChange 500 (Some 0) ''left'' ''0px'' ''2px'']"
  by (simp add: wide_manager_def narrow_manager_def or_default_def push_def push_change_def
      left_0_1_def left_1_2_def Let_def enforce_limit_def emit_def)

subsection \<open>Opening a batch twice\<close>

lemma pushes_batched:
  "batchMode h \<Longrightarrow>
   run (pushes tcs) (h, d) = (h\<lparr>batchedChanges := batchedChanges h @ map snd tcs\<rparr>, d)"
proof (induction tcs arbitrary: h)
  case Nil
  then show ?case by simp
next
  case (Cons tc tcs)
  obtain now c where tc: "tc = (now, c)" by (cases tc)
  let ?h = "h\<lparr>batchedChanges := batchedChanges h @ [c]\<rparr>"
  have "push now (Single c) h = Inr ?h" using Cons.prems by (simp add: push_def)
  moreover have "batchMode ?h" using Cons.prems by simp
  ultimately show ?case using Cons.IH [of ?h] tc by simp
qed

lemma endBatch_empty:
  "batchedChanges h = [] \<Longrightarrow> endBatch now h = Inr (h\<lparr>batchMode := False\<rparr>)"
  by (simp add: endBatch_def)

lemma endBatch_stacks:
  assumes "batchedChanges h \<noteq> []"
  shows "undoStack (after (endBatch now h)) =
           (if int (length (undoStack h)) + 1 > maxSize h
            then tl (undoStack h @ [BatchChange now (batchedChanges h)])
            else undoStack h @ [BatchChange now (batchedChanges h)]) \<and>
         redoStack (after (endBatch now h)) = []"
proof -
  let ?h = "enforce_limit (h\<lparr>undoStack := undoStack h @ [BatchChange now (batchedChanges h)],
                            redoStack := []\<rparr>)"
  have e: "endBatch now h =
             and_then (emit ''change'' (state ?h) ?h)
               (\<lambda>h2. Inr (h2\<lparr>batchMode := False, batchedChanges := []\<rparr>))"
    using assms by (simp add: endBatch_def Let_def)
  have "undoStack (after (emit ''change'' (state ?h) ?h)) = undoStack ?h"
    "redoStack (after (emit ''change'' (state ?h) ?h)) = []"
    by simp_all
  then have "undoStack (after (endBatch now h)) = undoStack ?h \<and>
             redoStack (after (endBatch now h)) = []"
    unfolding e by (cases "emit ''change'' (state ?h) ?h") auto
  then show ?thesis
    by (simp add: enforce_limit_undoStack)
qed

lemma open_batch_fields:
  "batchMode open_batch"
  "batchedChanges open_batch = [left_0_1]"
  "undoStack open_batch = []"
  "redoStack open_batch = []"
  "maxSize open_batch = 50"
  "delivered open_batch = []"
  "listeners open_batch = (\<lambda>event. [])"
  by (simp_all add: open_batch_def beginBatch_def push_def default_manager_def or_default_def)

text \<open>
  Claim C8, as amended. \<open>beginBatch\<close> while a batch is open keeps batch mode on and
  replaces the buffer by an empty one: what was pushed into the buffer before the call is
  dropped. The next \<open>endBatch\<close> records exactly the changes pushed after the call: if
  there are none, it closes the batch and leaves both stacks and the listeners' record as
  they are; if there are some, it pushes one \<open>BatchChange\<close> of exactly these changes
  onto the undo stack (dropping the oldest entry when the limit is exceeded) and empties
  the redo stack.
\<close>

theorem beginBatch_resets_buffer:
  assumes "batchMode h"
  shows "beginBatch h = h\<lparr>batchedChanges := []\<rparr> \<and>
         (tcs = [] \<longrightarrow>
            fst (run (BeginBatch # pushes tcs @ [EndBatch now]) (h, d)) =
              h\<lparr>batchMode := False, batchedChanges := []\<rparr>) \<and>
         (tcs \<noteq> [] \<longrightarrow>
            undoStack (fst (run (BeginBatch # pushes tcs @ [EndBatch now]) (h, d))) =
              (if int (length (undoStack h)) + 1 > maxSize h
               then tl (undoStack h @ [BatchChange now (map snd tcs)])
               else undoStack h @ [BatchChange now (map snd tcs)]) \<and>
            redoStack (fst (run (BeginBatch # pushes tcs @ [EndBatch now]) (h, d))) = [])"
proof (intro conjI impI)
  show "beginBatch h = h\<lparr>batchedChanges := []\<rparr>"
    using assms by (simp add: beginBatch_def)
next
  assume "tcs = []"
  then show "fst (run (BeginBatch # pushes tcs @ [EndBatch now]) (h, d)) =
               h\<lparr>batchMode := False, batchedChanges := []\<rparr>"
    by (simp add: beginBatch_def endBatch_empty)
next
  let ?b = "beginBatch h"
  let ?c = "?b\<lparr>batchedChanges := batchedChanges ?b @ map snd tcs\<rparr>"
  assume a: "tcs \<noteq> []"
  have b: "batchMode ?b" by (simp add: beginBatch_def)
  have r: "run (BeginBatch # pushes tcs @ [EndBatch now]) (h, d) = (after (endBatch now ?c), d)"
    by (simp add: pushes_batched [OF b])
  have c: "batchedChanges ?c = map snd tcs" "undoStack ?c = undoStack h"
    "maxSize ?c = maxSize h"
    by (simp_all add: beginBatch_def)
  then have "batchedChanges ?c \<noteq> []" using a by simp
  from endBatch_stacks [OF this, of now] c r
  show "undoStack (fst (run (BeginBatch # pushes tcs @ [EndBatch now]) (h, d))) =
              (if int (length (undoStack h)) + 1 > maxSize h
               then tl (undoStack h @ [BatchChange now (map snd tcs)])
               else undoStack h @ [BatchChange now (map snd tcs)])"
    and "redoStack (fst (run (BeginBatch # pushes tcs @ [EndBatch now]) (h, d))) = []"
    by simp_all
qed

text \<open>
  On the manager with an open batch that holds the first nudge: a second \<open>beginBatch\<close>
  followed at once by \<open>endBatch\<close> records nothing; followed by the push of a text change
  and \<open>endBatch\<close> it records a batch of that text change alone.
\<close>

theorem beginBatch_resets_buffer_witness:
  "batchMode open_batch \<and> batchedChanges open_batch = [left_0_1] \<and>
   batchedChanges (beginBatch open_batch) = [] \<and>
   undoStack (fst (run [BeginBatch, EndBatch 700] (open_batch, doc0))) = [] \<and>
   delivered (fst (run [BeginBatch, EndBatch 700] (open_batch, doc0))) = [] \<and>
   \<not> batchMode (fst (run [BeginBatch, EndBatch 700] (open_batch, doc0))) \<and>
   undoStack (fst (run [BeginBatch, Push 600 (Single (TextChange 600 (Some 0) ''a'' ''b'')),
                        EndBatch 700] (open_batch, doc0))) =
     [BatchChange 700 [TextChange 600 (Some 0) ''a'' ''b'']]"
proof -
  have a: "batchMode open_batch" by (simp add: open_batch_fields)
  have n: "([] :: (int \<times> change) list) = []"
    and s: "[(600::int, TextChange 600 (Some 0) ''a'' ''b'')] \<noteq> []"
    by simp_all
  from beginBatch_resets_buffer [OF a, of "[]" 700 doc0] n
  have 1: "beginBatch open_batch = open_batch\<lparr>batchedChanges := []\<rparr>"
    and 2: "fst (run (BeginBatch # pushes [] @ [EndBatch 700]) (open_batch, doc0)) =
              open_batch\<lparr>batchMode := False, batchedChanges := []\<rparr>"
    by blast+
  from beginBatch_resets_buffer
         [OF a, of "[(600, TextChange 600 (Some 0) ''a'' ''b'')]" 700 doc0] s
  have 3: "undoStack (fst (run
              (BeginBatch # pushes [(600, TextChange 600 (Some 0) ''a'' ''b'')] @ [EndBatch 700])
              (open_batch, doc0))) =
           (if int (length (undoStack open_batch)) + 1 > maxSize open_batch
            then tl (undoStack open_batch @
                       [BatchChange 700 (map snd [(600::int, TextChange 600 (Some 0) ''a'' ''b'')])])
            else undoStack open_batch @
                   [BatchChange 700 (map snd [(600::int, TextChange 600 (Some 0) ''a'' ''b'')])])"
    by blast
  have 4: "run [BeginBatch, EndBatch 700] (open_batch, doc0) =
             run (BeginBatch # pushes [] @ [EndBatch 700]) (open_batch, doc0)"
    by simp
  have 5: "run [BeginBatch, Push 600 (Single (TextChange 600 (Some 0) ''a'' ''b'')),
                EndBatch 700] (open_batch, doc0) =
           run (BeginBatch # pushes [(600, TextChange 600 (Some 0) ''a'' ''b'')] @ [EndBatch 700])
             (open_batch, doc0)"
    by simp
  show ?thesis
    unfolding 4 5 2 3 using a 1 by (simp add: open_batch_fields)
qed

text \<open>
  The claim as stated fails: the buffer holds the first nudge when \<open>beginBatch\<close> is
  called again; after the call it is empty, and the batch recorded by the next
  \<open>endBatch\<close> holds the text change pushed afterwards and not the nudge.
\<close>

theorem second_beginBatch_drops_buffer:
  "batchMode open_batch \<and> batchedChanges open_batch = [left_0_1] \<and>
   batchedChanges (beginBatch open_batch) = [] \<and>
   undoStack (fst (run [BeginBatch, Push 600 (Single (TextChange 600 (Some 0) ''a'' ''b'')),
                        EndBatch 700] (open_batch, doc0))) =
     [BatchChange 700 [TextChange 600 (Some 0) ''a'' ''b'']]"
  by (simp add: open_batch_fields beginBatch_def push_def endBatch_def Let_def
      enforce_limit_def emit_def)

subsection \<open>The mouse-up handler of the draggable\<close>

lemma setStyle_reads [simp]:
  "isSVG (setStyle d e p v e') = isSVG (d e')"
  "isConnected (setStyle d e p v e') = isConnected (d e')"
  "attributes (setStyle d e p v e') = attributes (d e')"
  "q \<noteq> p \<Longrightarrow> style (setStyle d e p v e') q = style (d e') q"
  by (simp_all add: setStyle_def split: option.splits)

lemma released_doc_reads [simp]:
  "isSVG (released_doc st d e) = isSVG (d e)"
  "attributes (released_doc st d e) = attributes (d e)"
  "style (released_doc st d e) ''left'' = style (d e) ''left''"
  "style (released_doc st d e) ''top'' = style (d e) ''top''"
  by (simp_all add: released_doc_def split: option.splits)

lemma released_doc_travel [simp]:
  "released_doc (st\<lparr>travelDistance := n\<rparr>) d = released_doc st d"
  by (simp add: released_doc_def split: option.splits)



















end
